theory Spec2Isabelle
  imports Main
begin

section \<open>repoze.bfg.workflow.statemachine: the finite state machine\<close>

text \<open>
  A shallow embedding of \<^verbatim>\<open>src/repoze/bfg/workflow/statemachine.py\<close>.

  \<^item> Python values (states, transition names, metadata values, attribute values) are
    \<open>'a pyval\<close>: either \<open>None\<close> or some other object, compared with \<open>==\<close> structurally.
  \<^item> A context is given by what reading each of its attributes does: the attribute was
    never set (the read raises \<open>AttributeError\<close>), it holds a value, or the read raises
    some exception (the class's \<open>__getattr__\<close> does). Assigning an attribute stores the
    value.
  \<^item> A transition dictionary is a record of its four reserved keys and the map of the
    remaining keyword arguments. The table holds the dictionaries themselves: the
    dictionary that \<open>execute\<close> finds is the one at its position in the table, and what a
    guard or callback does to it is done to the table. Distinct positions hold distinct
    dictionaries, as they do in every table built with \<open>add_transition\<close>.
  \<^item> Callbacks are named by an identifier \<open>'cb\<close>; what one does when called is given
    by a table \<open>cbs\<close> that every operation calling callbacks takes as a parameter.
  \<^item> A guard or callback is called with the context and the transition dictionary. It may
    change both and then return normally or raise, so its result is the raised
    exception (if any) together with the context and the dictionary as it left them.
  \<^item> Every call the engine makes to a guard or a callback is appended to \<open>calls\<close>, with
    the dictionary as it was when the call was made, so that "is invoked" and "is never
    invoked" are statements about that list.
  \<^item> An operation that can raise returns the exception as a value; an operation that
    can change the table returns the machine.
\<close>

subsection \<open>Data model\<close>

datatype 'a pyval = PyNone | PyObj 'a

record ('a, 'cb) transition =
  name :: "'a pyval"
  from_state :: "'a pyval"
  to_state :: "'a pyval"
  callback :: "'cb option"
  extra :: "string \<rightharpoonup> 'a pyval"

text \<open>The two messages of \<open>StateMachineError\<close>, with the values they are formatted from.\<close>

datatype 'a message =
    No_transition_using "'a pyval" "'a pyval"
  | No_transition_to_state "'a pyval" "'a pyval"

datatype ('a, 'x) exn =
    StateMachineError "'a message"
  | KeyError "'a pyval"
  | AttributeError
  | Other 'x

text \<open>What reading one attribute of an object does.\<close>

datatype ('v, 'e) attribute = Missing | Stored 'v | Failing 'e

type_synonym ('a, 'x) context_obj = "string \<Rightarrow> ('a pyval, ('a, 'x) exn) attribute"

type_synonym ('a, 'cb, 'x) callable =
  "('a, 'x) context_obj \<Rightarrow> ('a, 'cb) transition
     \<Rightarrow> ('a, 'x) exn option \<times> ('a, 'x) context_obj \<times> ('a, 'cb) transition"

datatype ('a, 'cb) event =
    Guard_call nat "('a, 'cb) transition"
  | Callback_call 'cb "('a, 'cb) transition"

record ('a, 'cb, 'x) world =
  ctx :: "('a, 'x) context_obj"
  calls :: "('a, 'cb) event list"

record ('a, 'cb) machine =
  m_transitions :: "('a, 'cb) transition list"
  m_state_data :: "'a pyval \<rightharpoonup> (string \<rightharpoonup> 'a pyval)"
  m_state_order :: "'a pyval list"
  state_attr :: string
  initializer :: "'cb option"
  initial_state :: "'a pyval"

text \<open>One dictionary \<open>D\<close> of the list that \<open>state_info\<close> returns.\<close>

record ('a, 'cb) descriptor =
  d_name :: "'a pyval"
  d_transitions :: "('a, 'cb) transition list"
  d_data :: "string \<rightharpoonup> 'a pyval"
  d_initial :: bool
  d_current :: bool
  d_title :: "'a pyval"

subsection \<open>Table construction\<close>

text \<open>\<open>__init__\<close>: \<open>transitions=None\<close> stands for the empty list.\<close>

definition init ::
  "string \<Rightarrow> ('a, 'cb) transition list option \<Rightarrow> 'a pyval \<Rightarrow> 'cb option \<Rightarrow> ('a, 'cb) machine" where
  "init attr transitions_arg initial initializer_cb =
     \<lparr>m_transitions = (case transitions_arg of None \<Rightarrow> [] | Some ts \<Rightarrow> ts),
      m_state_data = Map.empty,
      m_state_order = [],
      state_attr = attr,
      initializer = initializer_cb,
      initial_state = initial\<rparr>"

text \<open>
  \<open>add_state_info\<close>: append the name unless it is in the order already; create the
  metadata dictionary unless there is one; then \<open>update\<close> it with the keyword arguments.
\<close>

definition add_state_info ::
  "('a, 'cb) machine \<Rightarrow> 'a pyval \<Rightarrow> (string \<rightharpoonup> 'a pyval) \<Rightarrow> ('a, 'cb) machine" where
  "add_state_info m state_name kw =
     (let order = (if state_name \<notin> set (m_state_order m)
                   then m_state_order m @ [state_name] else m_state_order m);
          data = (if state_name \<notin> dom (m_state_data m)
                  then (m_state_data m)(state_name \<mapsto> Map.empty) else m_state_data m);
          old = (case data state_name of None \<Rightarrow> Map.empty | Some d \<Rightarrow> d)
      in m\<lparr>m_state_order := order, m_state_data := data(state_name \<mapsto> old ++ kw)\<rparr>)"

text \<open>
  \<open>add_transition\<close>: the record is the keyword dictionary with the four reserved keys
  overwritten, so whatever \<open>kw\<close> held under a reserved key is gone from \<open>extra\<close>. (Of the
  four only \<open>name\<close> can reach the body as a keyword: the other three are parameter names.)
\<close>

definition reserved :: "string set" where
  "reserved = {''name'', ''from_state'', ''to_state'', ''callback''}"

definition add_transition ::
  "('a, 'cb) machine \<Rightarrow> 'a pyval \<Rightarrow> 'a pyval \<Rightarrow> 'a pyval \<Rightarrow> 'cb option
     \<Rightarrow> (string \<rightharpoonup> 'a pyval) \<Rightarrow> ('a, 'cb) machine" where
  "add_transition m transition_name from_st to_st cb kw =
     (let m1 = add_state_info m from_st Map.empty;
          m2 = add_state_info m1 to_st Map.empty;
          transition = \<lparr>name = transition_name, from_state = from_st, to_state = to_st,
                        callback = cb, extra = kw |` (- reserved)\<rparr>
      in m2\<lparr>m_transitions := m_transitions m2 @ [transition]\<rparr>)"

subsection \<open>Reading the current state\<close>

text \<open>
  \<open>getattr(obj, attr, default)\<close>: the default stands in when the read raises
  \<open>AttributeError\<close>; any other exception of the read propagates.
\<close>

definition getattr ::
  "(string \<Rightarrow> ('v, ('a, 'x) exn) attribute) \<Rightarrow> string \<Rightarrow> 'v \<Rightarrow> ('a, 'x) exn + 'v" where
  "getattr obj attr dflt =
     (case obj attr of
        Missing \<Rightarrow> Inr dflt
      | Stored v \<Rightarrow> Inr v
      | Failing e \<Rightarrow> (if e = AttributeError then Inr dflt else Inl e))"

text \<open>\<open>setattr(obj, attr, value)\<close>.\<close>

definition setattr ::
  "(string \<Rightarrow> ('v, 'e) attribute) \<Rightarrow> string \<Rightarrow> 'v \<Rightarrow> (string \<Rightarrow> ('v, 'e) attribute)" where
  "setattr obj attr v = obj(attr := Stored v)"

definition state_of ::
  "('a, 'cb) machine \<Rightarrow> ('a, 'x) context_obj \<Rightarrow> ('a, 'x) exn + 'a pyval" where
  "state_of m cx = getattr cx (state_attr m) (initial_state m)"

text \<open>
  \<open>execute\<close> reads the attribute with the module's private sentinel \<open>_marker\<close> as the
  default and replaces the sentinel by \<open>initial_state\<close>. No attribute of a context holds
  the sentinel, so the values read are the attribute values tagged \<open>Value\<close>, or \<open>Marker\<close>.
\<close>

datatype 'v marked = Marker | Value 'v

definition execute_state ::
  "('a, 'cb) machine \<Rightarrow> ('a, 'x) context_obj \<Rightarrow> ('a, 'x) exn + 'a pyval" where
  "execute_state m cx =
     (case getattr (map_attribute Value id \<circ> cx) (state_attr m) Marker of
        Inl e \<Rightarrow> Inl e
      | Inr state \<Rightarrow>
          (case state of Marker \<Rightarrow> Inr (initial_state m) | Value s \<Rightarrow> Inr s))"

subsection \<open>Execution\<close>

text \<open>
  The lookup loop of \<open>execute\<close>: the first dictionary whose pair equals \<open>si\<close>, with
  \<open>break\<close>. \<open>i\<close> is the position in the table of the head of the list still to scan, so
  the result names the dictionary found by its position.
\<close>

fun find_transition ::
  "('a, 'cb) transition list \<Rightarrow> 'a pyval \<times> 'a pyval \<Rightarrow> nat
     \<Rightarrow> (nat \<times> ('a, 'cb) transition) option" where
  "find_transition [] si i = None"
| "find_transition (t # ts) si i =
     (if (from_state t, name t) = si then Some (i, t) else find_transition ts si (Suc i))"

text \<open>
  The guard loop: \<open>guard(context, found)\<close> for each guard in turn; the first exception
  ends the loop. \<open>i\<close> is the position of the next guard in the sequence supplied, and
  \<open>found\<close> the dictionary as the guards so far have left it. \<open>execute\<close> enters the loop
  under \<open>if guards:\<close>, that is, for a non-empty sequence.
\<close>

fun run_guards ::
  "('a, 'cb, 'x) callable list \<Rightarrow> nat \<Rightarrow> ('a, 'cb) transition \<Rightarrow> ('a, 'cb, 'x) world
     \<Rightarrow> ('a, 'x) exn option \<times> ('a, 'cb) transition \<times> ('a, 'cb, 'x) world" where
  "run_guards [] i found w = (None, found, w)"
| "run_guards (guard # rest) i found w =
     (case guard (ctx w) found of
        (Some e, c, r) \<Rightarrow> (Some e, r, \<lparr>ctx = c, calls = calls w @ [Guard_call i found]\<rparr>)
      | (None, c, r) \<Rightarrow>
          run_guards rest (Suc i) r \<lparr>ctx = c, calls = calls w @ [Guard_call i found]\<rparr>)"

text \<open>
  The table after \<open>execute\<close>: the dictionary at position \<open>i\<close> is the one the guards and
  the callback were handed, in the state \<open>r\<close> they left it in.
\<close>

definition handed_back ::
  "('a, 'cb) machine \<Rightarrow> nat \<Rightarrow> ('a, 'cb) transition \<Rightarrow> ('a, 'cb) machine" where
  "handed_back m i r = m\<lparr>m_transitions := (m_transitions m)[i := r]\<rparr>"

definition execute ::
  "('cb \<Rightarrow> ('a, 'cb, 'x) callable) \<Rightarrow> ('a, 'cb) machine \<Rightarrow> ('a, 'cb, 'x) world \<Rightarrow> 'a pyval
     \<Rightarrow> ('a, 'cb, 'x) callable list
     \<Rightarrow> ('a, 'x) exn option \<times> ('a, 'cb) machine \<times> ('a, 'cb, 'x) world" where
  "execute cbs m w transition_name guards =
     (case execute_state m (ctx w) of
        Inl e \<Rightarrow> (Some e, m, w)
      | Inr state \<Rightarrow>
     (case find_transition (m_transitions m) (state, transition_name) 0 of
        None \<Rightarrow> (Some (StateMachineError (No_transition_using state transition_name)), m, w)
      | Some (i, found) \<Rightarrow>
     (case (if guards = [] then (None, found, w) else run_guards guards 0 found w) of
        (Some e, r1, w1) \<Rightarrow> (Some e, handed_back m i r1, w1)
      | (None, r1, w1) \<Rightarrow>
     (case callback r1 of
        None \<Rightarrow>
          (None, handed_back m i r1,
           w1\<lparr>ctx := setattr (ctx w1) (state_attr m) (to_state r1)\<rparr>)
      | Some cb \<Rightarrow>
     (case cbs cb (ctx w1) r1 of
        (Some e, c, r2) \<Rightarrow>
          (Some e, handed_back m i r2, \<lparr>ctx = c, calls = calls w1 @ [Callback_call cb r1]\<rparr>)
      | (None, c, r2) \<Rightarrow>
          (None, handed_back m i r2,
           \<lparr>ctx = setattr c (state_attr m) (to_state r2),
             calls = calls w1 @ [Callback_call cb r1]\<rparr>))))))"

subsection \<open>State queries\<close>

definition transitions ::
  "('a, 'cb) machine \<Rightarrow> ('a, 'x) context_obj \<Rightarrow> 'a pyval
     \<Rightarrow> ('a, 'x) exn + ('a, 'cb) transition list" where
  "transitions m cx from_st =
     (case (if from_st = PyNone then state_of m cx else Inr from_st) of
        Inl e \<Rightarrow> Inl e
      | Inr from_st \<Rightarrow>
          Inr (filter (\<lambda>transition. from_st = from_state transition) (m_transitions m)))"

text \<open>The inner loop of \<open>state_info\<close>; \<open>acc\<close> is \<open>D['transitions']\<close>.\<close>

fun collect_transitions ::
  "('a, 'cb) transition list \<Rightarrow> 'a pyval \<Rightarrow> 'a pyval \<Rightarrow> ('a, 'cb) transition list
     \<Rightarrow> ('a, 'cb) transition list" where
  "collect_transitions [] from_st state_name acc = acc"
| "collect_transitions (t # ts) from_st state_name acc =
     collect_transitions ts from_st state_name
       (if from_state t = from_st \<and> to_state t = state_name then acc @ [t] else acc)"

text \<open>
  The outer loop of \<open>state_info\<close>; \<open>L\<close> is the list built so far.
  \<open>self._state_data[state_name]\<close> raises \<open>KeyError(state_name)\<close> for a name without
  metadata: the result \<open>Inl state_name\<close>.
\<close>

fun state_info_loop ::
  "('a, 'cb) machine \<Rightarrow> 'a pyval \<Rightarrow> 'a pyval \<Rightarrow> 'a pyval list \<Rightarrow> ('a, 'cb) descriptor list
     \<Rightarrow> 'a pyval + ('a, 'cb) descriptor list" where
  "state_info_loop m context_state from_st [] L = Inr L"
| "state_info_loop m context_state from_st (state_name # rest) L =
     (case m_state_data m state_name of
        None \<Rightarrow> Inl state_name
      | Some state_data \<Rightarrow>
          state_info_loop m context_state from_st rest
            (L @ [\<lparr>d_name = state_name,
                   d_transitions =
                     collect_transitions (m_transitions m) from_st state_name [],
                   d_data = state_data,
                   d_initial = (state_name = initial_state m),
                   d_current = (state_name = context_state),
                   d_title = (case state_data ''title'' of
                                None \<Rightarrow> state_name | Some title \<Rightarrow> title)\<rparr>]))"

definition state_info ::
  "('a, 'cb) machine \<Rightarrow> ('a, 'x) context_obj \<Rightarrow> 'a pyval
     \<Rightarrow> ('a, 'x) exn + ('a, 'cb) descriptor list" where
  "state_info m cx from_st =
     (case state_of m cx of
        Inl e \<Rightarrow> Inl e
      | Inr context_state \<Rightarrow>
          (let from_st = (if from_st = PyNone then context_state else from_st)
           in case state_info_loop m context_state from_st (m_state_order m) [] of
                Inl key \<Rightarrow> Inl (KeyError key)
              | Inr L \<Rightarrow> Inr L))"

subsection \<open>Targeted transition\<close>

text \<open>
  The loop of \<open>transition_to_state\<close> over the descriptors: at the descriptor named
  \<open>to_state\<close> with a non-empty transition list, \<open>execute\<close> is called with the name of
  its first transition and the method returns; when the loop runs out, it raises.
\<close>

fun transition_to_state_loop ::
  "('cb \<Rightarrow> ('a, 'cb, 'x) callable) \<Rightarrow> ('a, 'cb) machine \<Rightarrow> ('a, 'cb, 'x) world \<Rightarrow> 'a pyval
     \<Rightarrow> ('a, 'cb, 'x) callable list \<Rightarrow> 'a pyval \<Rightarrow> ('a, 'cb) descriptor list
     \<Rightarrow> ('a, 'x) exn option \<times> ('a, 'cb) machine \<times> ('a, 'cb, 'x) world" where
  "transition_to_state_loop cbs m w to_st guards from_st [] =
     (Some (StateMachineError (No_transition_to_state from_st to_st)), m, w)"
| "transition_to_state_loop cbs m w to_st guards from_st (info # rest) =
     (if d_name info = to_st then
        (case d_transitions info of
           [] \<Rightarrow> transition_to_state_loop cbs m w to_st guards from_st rest
         | transition # _ \<Rightarrow> execute cbs m w (name transition) guards)
      else transition_to_state_loop cbs m w to_st guards from_st rest)"

definition transition_to_state ::
  "('cb \<Rightarrow> ('a, 'cb, 'x) callable) \<Rightarrow> ('a, 'cb) machine \<Rightarrow> ('a, 'cb, 'x) world \<Rightarrow> 'a pyval
     \<Rightarrow> ('a, 'cb, 'x) callable list \<Rightarrow> bool
     \<Rightarrow> ('a, 'x) exn option \<times> ('a, 'cb) machine \<times> ('a, 'cb, 'x) world" where
  "transition_to_state cbs m w to_st guards skip_same =
     (case state_of m (ctx w) of
        Inl e \<Rightarrow> (Some e, m, w)
      | Inr from_st \<Rightarrow>
          if from_st = to_st \<and> skip_same then (None, m, w)
          else
            (case state_info m (ctx w) PyNone of
               Inl e \<Rightarrow> (Some e, m, w)
             | Inr infos \<Rightarrow> transition_to_state_loop cbs m w to_st guards from_st infos))"

subsection \<open>The invariant of the tables\<close>

text \<open>
  Every name in the state order has a metadata dictionary and the order has no
  repetition. The constructor establishes this, both registration methods keep it, and
  \<open>execute\<close> and \<open>transition_to_state\<close> leave the state order and the metadata alone.
\<close>

definition invariant :: "('a, 'cb) machine \<Rightarrow> bool" where
  "invariant m = (distinct (m_state_order m) \<and> set (m_state_order m) = dom (m_state_data m))"

subsection \<open>Example machines, callbacks, guards and contexts\<close>

text \<open>
  Concrete tables built with \<open>add_transition\<close> from an empty machine, the behaviour of a
  few callbacks and guards, and contexts, used to run the operations on explicit inputs.
  \<open>stamp\<close> sets the attribute \<open>published_at\<close>; \<open>rewrite_and_fail\<close> assigns the state attribute
  itself and then raises. \<open>retarget_guard\<close> assigns
  \<open>to_state\<close> in the dictionary it is handed and returns normally. Reading the state of
  the context \<open>unreadable\<close> raises an exception that is not an \<open>AttributeError\<close>.
\<close>

definition example_cbs :: "string \<Rightarrow> (string, string, string) callable" where
  "example_cbs cb cx t =
     (if cb = ''stamp'' then (None, setattr cx ''published_at'' (PyObj ''now''), t)
      else if cb = ''rewrite_and_fail''
        then (Some (Other ''boom''), setattr cx ''state'' (PyObj ''X''), t)
      else (None, cx, t))"

definition pass_guard :: "(string, string, string) callable" where
  "pass_guard cx t = (None, cx, t)"

definition veto_guard :: "(string, string, string) callable" where
  "veto_guard cx t = (Some (Other ''veto''), cx, t)"


definition no_attrs :: "(string, string) context_obj" where
  "no_attrs = (\<lambda>attr. Missing)"

definition unset :: "(string, string, string) world" where
  "unset = \<lparr>ctx = no_attrs, calls = []\<rparr>"

definition in_state :: "string \<Rightarrow> (string, string, string) world" where
  "in_state s = \<lparr>ctx = setattr no_attrs ''state'' (PyObj s), calls = []\<rparr>"

definition unreadable :: "(string, string) context_obj" where
  "unreadable = no_attrs(''state'' := Failing (Other ''boom''))"

definition edge ::
  "string pyval \<Rightarrow> string \<Rightarrow> string \<Rightarrow> string option \<Rightarrow> (string, string) transition" where
  "edge n a b cb =
     \<lparr>name = n, from_state = PyObj a, to_state = PyObj b, callback = cb, extra = Map.empty\<rparr>"

definition workflow :: "(string, string) machine" where
  "workflow =
     add_transition
       (add_transition
          (add_transition (init ''state'' None (PyObj ''draft'') None)
             (PyObj ''submit'') (PyObj ''draft'') (PyObj ''pending'') None Map.empty)
          (PyObj ''approve'') (PyObj ''pending'') (PyObj ''published'') (Some ''stamp'') Map.empty)
       (PyObj ''reject'') (PyObj ''pending'') (PyObj ''draft'') None Map.empty"

definition shadowed :: "(string, string) machine" where
  "shadowed =
     add_transition
       (add_transition (init ''state'' None PyNone None)
          (PyObj ''go'') (PyObj ''A'') (PyObj ''B'') (Some ''stamp'') Map.empty)
       (PyObj ''go'') (PyObj ''A'') (PyObj ''C'') None Map.empty"

definition wildcard :: "(string, string) machine" where
  "wildcard =
     add_transition (init ''state'' None PyNone None)
       PyNone (PyObj ''A'') (PyObj ''B'') None Map.empty"

definition risky :: "(string, string) machine" where
  "risky =
     add_transition (init ''state'' None PyNone None)
       (PyObj ''go'') (PyObj ''A'') (PyObj ''B'') (Some ''rewrite_and_fail'') Map.empty"

definition loop_shadowed :: "(string, string) machine" where
  "loop_shadowed =
     add_transition
       (add_transition (init ''state'' None PyNone None)
          (PyObj ''go'') (PyObj ''S'') (PyObj ''B'') None Map.empty)
       (PyObj ''go'') (PyObj ''S'') (PyObj ''S'') None Map.empty"

definition titled :: "(string, string) machine" where
  "titled = add_state_info workflow (PyObj ''draft'') [''title'' \<mapsto> PyObj ''Draft'']"

section \<open>Properties\<close>

subsection \<open>The tables keep their invariant\<close>

lemma invariant_init: "invariant (init attr transitions_arg initial initializer_cb)"
  by (simp add: invariant_def init_def)

lemma invariant_add_state_info:
  "invariant m \<Longrightarrow> invariant (add_state_info m state_name kw)"
  by (auto simp: invariant_def add_state_info_def Let_def)

lemma invariant_add_transition:
  "invariant m \<Longrightarrow> invariant (add_transition m transition_name from_st to_st cb kw)"
  by (simp add: add_transition_def Let_def invariant_def)
     (use invariant_add_state_info invariant_def in blast)

lemma invariant_handed_back: "invariant (handed_back m i r) = invariant m"
  by (simp add: invariant_def handed_back_def)

lemma invariant_execute:
  "invariant (fst (snd (execute cbs m w transition_name guards))) = invariant m"
  by (simp add: execute_def invariant_handed_back split: sum.splits option.splits prod.splits)

lemma invariant_transition_to_state_loop:
  "invariant (fst (snd (transition_to_state_loop cbs m w to_st guards from_st L))) = invariant m"
  by (induction L) (simp_all add: invariant_execute split: list.splits)

lemma invariant_transition_to_state:
  "invariant (fst (snd (transition_to_state cbs m w to_st guards skip_same))) = invariant m"
  by (simp add: transition_to_state_def invariant_transition_to_state_loop split: sum.splits)

subsection \<open>Auxiliary facts about the loops\<close>

lemma execute_state_eq: "execute_state m cx = state_of m cx"
  by (simp add: execute_state_def state_of_def getattr_def split: attribute.splits)

lemma find_transition_None:
  "\<forall>t\<in>set ts. (from_state t, name t) \<noteq> si \<Longrightarrow> find_transition ts si i = None"
  by (induction ts arbitrary: i) auto

lemma find_transition_first:
  "\<forall>t\<in>set pre. (from_state t, name t) \<noteq> si \<Longrightarrow> (from_state T, name T) = si
     \<Longrightarrow> find_transition (pre @ T # post) si i = Some (i + length pre, T)"
  by (induction pre arbitrary: i) auto

lemma collect_transitions_filter:
  "collect_transitions ts from_st state_name acc =
     acc @ filter (\<lambda>t. from_state t = from_st \<and> to_state t = state_name) ts"
  by (induction ts arbitrary: acc) auto

lemma run_guards_if:
  "(if guards = [] then (None, found, w) else run_guards guards i found w) =
     run_guards guards i found w"
  by (cases guards) simp_all

lemma run_guards_append:
  "run_guards (gs1 @ gs2) i found w =
     (case run_guards gs1 i found w of
        (Some e, r, w1) \<Rightarrow> (Some e, r, w1)
      | (None, r, w1) \<Rightarrow> run_guards gs2 (i + length gs1) r w1)"
  by (induction gs1 arbitrary: i found w) (auto split: prod.splits option.splits)

text \<open>
  The guards that return normally, followed along the contexts and dictionaries they
  leave: \<open>ps ! j\<close> is the context and the dictionary that guard \<open>j\<close> is called with.
\<close>

lemma run_guards_passed:
  "length ps = Suc k \<Longrightarrow> k \<le> length gs \<Longrightarrow> ps ! 0 = (ctx w, found)
     \<Longrightarrow> \<forall>j<k. (gs ! j) (fst (ps ! j)) (snd (ps ! j)) = (None, ps ! Suc j)
     \<Longrightarrow> run_guards (take k gs) i found w =
           (None, snd (ps ! k),
            \<lparr>ctx = fst (ps ! k),
              calls = calls w @ map (\<lambda>j. Guard_call (i + j) (snd (ps ! j))) [0..<k]\<rparr>)"
proof (induction k arbitrary: ps gs i w found)
  case 0
  then show ?case by simp
next
  case (Suc k)
  from Suc.prems(1) obtain p ps' where ps: "ps = p # ps'" and len: "length ps' = Suc k"
    by (cases ps) auto
  from Suc.prems(2) obtain g gs' where gs: "gs = g # gs'" and le: "k \<le> length gs'"
    by (cases gs) auto
  from Suc.prems(3) ps have p: "p = (ctx w, found)"
    by simp
  from Suc.prems(4) ps gs p have g: "g (ctx w) found = (None, ps' ! 0)"
    by fastforce
  let ?w = "\<lparr>ctx = fst (ps' ! 0), calls = calls w @ [Guard_call i found]\<rparr>"
  have rest: "\<forall>j<k. (gs' ! j) (fst (ps' ! j)) (snd (ps' ! j)) = (None, ps' ! Suc j)"
  proof (intro allI impI)
    fix j assume "j < k"
    with Suc.prems(4) have
      "(gs ! Suc j) (fst (ps ! Suc j)) (snd (ps ! Suc j)) = (None, ps ! Suc (Suc j))"
      by simp
    with ps gs show "(gs' ! j) (fst (ps' ! j)) (snd (ps' ! j)) = (None, ps' ! Suc j)"
      by simp
  qed
  have "ps' ! 0 = (ctx ?w, snd (ps' ! 0))"
    by simp
  from Suc.IH[OF len le this rest, of "Suc i"]
  have "run_guards (take k gs') (Suc i) (snd (ps' ! 0)) ?w =
      (None, snd (ps' ! k),
       \<lparr>ctx = fst (ps' ! k),
         calls = calls ?w @ map (\<lambda>j. Guard_call (Suc i + j) (snd (ps' ! j))) [0..<k]\<rparr>)" .
  moreover have "map (\<lambda>j. Guard_call (i + j) (snd (ps ! j))) [0..<Suc k] =
      Guard_call i found # map (\<lambda>j. Guard_call (Suc i + j) (snd (ps' ! j))) [0..<k]"
    unfolding map_upt_Suc using ps p by simp
  ultimately show ?case
    using g ps gs by (cases "ps' ! 0") (simp del: upt_Suc)
qed

lemma run_guards_raised:
  assumes "length ps = Suc k" and "k < length gs" and "ps ! 0 = (ctx w, found)"
    and "\<forall>j<k. (gs ! j) (fst (ps ! j)) (snd (ps ! j)) = (None, ps ! Suc j)"
    and "(gs ! k) (fst (ps ! k)) (snd (ps ! k)) = (Some e, c, r)"
  shows "run_guards gs 0 found w =
           (Some e, r,
            \<lparr>ctx = c, calls = calls w @ map (\<lambda>j. Guard_call j (snd (ps ! j))) [0..<Suc k]\<rparr>)"
proof -
  from assms(2) have split: "gs = take k gs @ (gs ! k) # drop (Suc k) gs"
    by (simp add: id_take_nth_drop)
  from assms(2) have "k \<le> length gs"
    by simp
  from run_guards_passed[OF assms(1) this assms(3,4), of 0]
  have "run_guards (take k gs) 0 found w =
      (None, snd (ps ! k),
       \<lparr>ctx = fst (ps ! k), calls = calls w @ map (\<lambda>j. Guard_call j (snd (ps ! j))) [0..<k]\<rparr>)"
    by simp
  moreover from assms(2) have "length (take k gs) = k"
    by simp
  ultimately have "run_guards (take k gs @ (gs ! k) # drop (Suc k) gs) 0 found w =
      (Some e, r,
       \<lparr>ctx = c, calls = calls w @ map (\<lambda>j. Guard_call j (snd (ps ! j))) [0..<Suc k]\<rparr>)"
    using assms(5) by (simp add: run_guards_append)
  with split show ?thesis
    by simp
qed

lemma run_guards_all_passed:
  assumes "length ps = Suc (length gs)" and "ps ! 0 = (ctx w, found)"
    and "\<forall>j<length gs. (gs ! j) (fst (ps ! j)) (snd (ps ! j)) = (None, ps ! Suc j)"
  shows "run_guards gs 0 found w =
           (None, snd (ps ! length gs),
            \<lparr>ctx = fst (ps ! length gs),
              calls = calls w @ map (\<lambda>j. Guard_call j (snd (ps ! j))) [0..<length gs]\<rparr>)"
  using run_guards_passed[OF assms(1) _ assms(2,3), of 0] by simp

lemma kept_along:
  "\<forall>i<k. fst (ps ! Suc i) a = fst (ps ! i) a \<Longrightarrow> fst (ps ! k) a = fst (ps ! 0) a"
  by (induction k) simp_all

text \<open>\<open>execute\<close> once the state is read and the first matching dictionary is known.\<close>

lemma execute_found:
  assumes "m_transitions m = pre @ T # post"
    and "\<forall>t\<in>set pre. (from_state t, name t) \<noteq> (from_state T, name T)"
    and "state_of m (ctx w) = Inr (from_state T)"
  shows "execute cbs m w (name T) guards =
     (case run_guards guards 0 T w of
        (Some e, r1, w1) \<Rightarrow> (Some e, m\<lparr>m_transitions := pre @ r1 # post\<rparr>, w1)
      | (None, r1, w1) \<Rightarrow>
     (case callback r1 of
        None \<Rightarrow>
          (None, m\<lparr>m_transitions := pre @ r1 # post\<rparr>,
           w1\<lparr>ctx := setattr (ctx w1) (state_attr m) (to_state r1)\<rparr>)
      | Some cb \<Rightarrow>
     (case cbs cb (ctx w1) r1 of
        (Some e, c, r2) \<Rightarrow>
          (Some e, m\<lparr>m_transitions := pre @ r2 # post\<rparr>,
           \<lparr>ctx = c, calls = calls w1 @ [Callback_call cb r1]\<rparr>)
      | (None, c, r2) \<Rightarrow>
          (None, m\<lparr>m_transitions := pre @ r2 # post\<rparr>,
           \<lparr>ctx = setattr c (state_attr m) (to_state r2),
             calls = calls w1 @ [Callback_call cb r1]\<rparr>))))"
proof -
  from assms(1,2) have
    "find_transition (m_transitions m) (from_state T, name T) 0 = Some (length pre, T)"
    by (simp add: find_transition_first)
  with assms(1,3) show ?thesis
    by (simp add: execute_def execute_state_eq run_guards_if handed_back_def
        split: prod.splits option.splits)
qed

lemma same_table: "m_transitions m = ts \<Longrightarrow> m\<lparr>m_transitions := ts\<rparr> = m"
  by auto

lemma state_info_loop_map:
  "set states \<subseteq> dom (m_state_data m) \<Longrightarrow>
   state_info_loop m context_state from_st states L =
     Inr (L @ map (\<lambda>s. \<lparr>d_name = s,
                         d_transitions =
                           filter (\<lambda>t. from_state t = from_st \<and> to_state t = s) (m_transitions m),
                         d_data = the (m_state_data m s),
                         d_initial = (s = initial_state m),
                         d_current = (s = context_state),
                         d_title = (case the (m_state_data m s) ''title'' of
                                      None \<Rightarrow> s | Some title \<Rightarrow> title)\<rparr>) states)"
proof (induction states arbitrary: L)
  case Nil
  then show ?case by simp
next
  case (Cons s states)
  from Cons.prems obtain sd where "m_state_data m s = Some sd"
    by auto
  moreover from Cons.prems have "set states \<subseteq> dom (m_state_data m)"
    by simp
  ultimately show ?case
    by (simp add: Cons.IH collect_transitions_filter)
qed

lemma state_info_map:
  assumes "invariant m" and "state_of m cx = Inr cur"
  shows "state_info m cx from_st =
     Inr (map (\<lambda>s. \<lparr>d_name = s,
                         d_transitions =
                           filter (\<lambda>t. from_state t = (if from_st = PyNone then cur else from_st)
                                        \<and> to_state t = s) (m_transitions m),
                         d_data = the (m_state_data m s),
                         d_initial = (s = initial_state m),
                         d_current = (s = cur),
                         d_title = (case the (m_state_data m s) ''title'' of
                                      None \<Rightarrow> s | Some title \<Rightarrow> title)\<rparr>)
            (m_state_order m))"
proof -
  from assms(1) have "set (m_state_order m) \<subseteq> dom (m_state_data m)"
    by (simp add: invariant_def)
  from state_info_loop_map[OF this] assms(2) show ?thesis
    by (simp add: state_info_def Let_def)
qed

lemma transition_to_state_loop_none:
  "\<forall>D\<in>set L. d_name D = to_st \<longrightarrow> d_transitions D = [] \<Longrightarrow>
   transition_to_state_loop cbs m w to_st guards from_st L =
     (Some (StateMachineError (No_transition_to_state from_st to_st)), m, w)"
  by (induction L) auto

lemma transition_to_state_loop_first:
  "D \<in> set L \<Longrightarrow> d_name D = to_st \<Longrightarrow> d_transitions D = T # rest
     \<Longrightarrow> distinct (map d_name L)
     \<Longrightarrow> transition_to_state_loop cbs m w to_st guards from_st L =
           execute cbs m w (name T) guards"
proof (induction L)
  case Nil
  then show ?case by simp
next
  case (Cons D' L)
  show ?case
  proof (cases "D' = D")
    case True
    with Cons.prems show ?thesis by simp
  next
    case False
    with Cons.prems have "D \<in> set L" "d_name D' \<noteq> to_st"
      by (auto simp: image_iff)
    with Cons show ?thesis by simp
  qed
qed

lemma transition_to_state_raises:
  assumes "invariant m" and "state_of m (ctx w) = Inr cur"
    and "\<not> (cur = S \<and> skip_same)"
    and "\<forall>t\<in>set (m_transitions m). \<not> (from_state t = cur \<and> to_state t = S)"
  shows "transition_to_state cbs m w S guards skip_same =
           (Some (StateMachineError (No_transition_to_state cur S)), m, w)"
proof -
  from state_info_map[OF assms(1,2), of PyNone] obtain L where
    L: "state_info m (ctx w) PyNone = Inr L"
    and tr: "\<forall>D\<in>set L. d_transitions D =
        filter (\<lambda>t. from_state t = cur \<and> to_state t = d_name D) (m_transitions m)"
    by auto
  have "\<forall>D\<in>set L. d_name D = S \<longrightarrow> d_transitions D = []"
  proof (intro ballI impI)
    fix D assume "D \<in> set L" "d_name D = S"
    with tr have "d_transitions D =
        filter (\<lambda>t. from_state t = cur \<and> to_state t = S) (m_transitions m)"
      by simp
    also from assms(4) have "\<dots> = []"
      by (simp add: filter_empty_conv)
    finally show "d_transitions D = []" .
  qed
  from transition_to_state_loop_none[OF this] L assms(2,3) show ?thesis
    by (auto simp: transition_to_state_def)
qed

lemma add_state_info_order:
  "m_state_order (add_state_info m s kw) =
     (if s \<in> set (m_state_order m) then m_state_order m else m_state_order m @ [s])"
  by (simp add: add_state_info_def Let_def)

lemma add_state_info_data:
  "m_state_data (add_state_info m s kw) s =
     Some ((case m_state_data m s of None \<Rightarrow> Map.empty | Some d \<Rightarrow> d) ++ kw)"
  by (simp add: add_state_info_def Let_def split: option.splits) (auto simp: dom_def)

lemma add_state_info_again:
  "s \<in> set (m_state_order m) \<Longrightarrow>
   m_state_order (fold (\<lambda>kw m'. add_state_info m' s kw) kws m) = m_state_order m"
  by (induction kws arbitrary: m) (simp_all add: add_state_info_order)

lemma add_state_info_extends:
  "\<exists>ys. m_state_order (fold (\<lambda>(s, kw) m'. add_state_info m' s kw) regs m) = m_state_order m @ ys"
proof (induction regs arbitrary: m)
  case Nil
  then show ?case by simp
next
  case (Cons r regs)
  obtain s kw where r: "r = (s, kw)" by (cases r)
  from Cons.IH[of "add_state_info m s kw"] obtain ys where
    "m_state_order (fold (\<lambda>(s, kw) m'. add_state_info m' s kw) regs (add_state_info m s kw)) =
       m_state_order (add_state_info m s kw) @ ys"
    by blast
  with r show ?case
    by (simp add: add_state_info_order)
qed

text \<open>Both ends of a transition registered with \<open>add_transition\<close> are in the state order.\<close>

lemma add_transition_registers:
  "from_st \<in> set (m_state_order (add_transition m transition_name from_st to_st cb kw))
   \<and> to_st \<in> set (m_state_order (add_transition m transition_name from_st to_st cb kw))"
  by (simp add: add_transition_def add_state_info_order Let_def)

subsection \<open>The example machines, evaluated\<close>

lemma workflow_fields:
  "m_transitions workflow =
     [edge (PyObj ''submit'') ''draft'' ''pending'' None,
      edge (PyObj ''approve'') ''pending'' ''published'' (Some ''stamp''),
      edge (PyObj ''reject'') ''pending'' ''draft'' None]"
  "m_state_order workflow = [PyObj ''draft'', PyObj ''pending'', PyObj ''published'']"
  "state_attr workflow = ''state''"
  "initial_state workflow = PyObj ''draft''"
  by (simp_all add: workflow_def edge_def add_transition_def add_state_info_def init_def Let_def)

lemma invariant_workflow: "invariant workflow"
  unfolding workflow_def by (intro invariant_add_transition invariant_init)

lemma shadowed_fields:
  "m_transitions shadowed =
     [edge (PyObj ''go'') ''A'' ''B'' (Some ''stamp''), edge (PyObj ''go'') ''A'' ''C'' None]"
  "m_state_order shadowed = [PyObj ''A'', PyObj ''B'', PyObj ''C'']"
  "state_attr shadowed = ''state''"
  "initial_state shadowed = PyNone"
  "m_state_data shadowed (PyObj ''A'') = Some Map.empty"
  "m_state_data shadowed (PyObj ''B'') = Some Map.empty"
  "m_state_data shadowed (PyObj ''C'') = Some Map.empty"
  by (simp_all add: shadowed_def edge_def add_transition_def add_state_info_def init_def Let_def)

lemma wildcard_fields:
  "m_transitions wildcard = [edge PyNone ''A'' ''B'' None]"
  "state_attr wildcard = ''state''"
  "initial_state wildcard = PyNone"
  by (simp_all add: wildcard_def edge_def add_transition_def add_state_info_def init_def Let_def)

lemma risky_fields:
  "m_transitions risky = [edge (PyObj ''go'') ''A'' ''B'' (Some ''rewrite_and_fail'')]"
  "state_attr risky = ''state''"
  "initial_state risky = PyNone"
  by (simp_all add: risky_def edge_def add_transition_def add_state_info_def init_def Let_def)

lemma titled_fields:
  "m_transitions titled = m_transitions workflow"
  "m_state_order titled = [PyObj ''draft'', PyObj ''pending'', PyObj ''published'']"
  "state_attr titled = ''state''"
  "initial_state titled = PyObj ''draft''"
  "m_state_data titled (PyObj ''draft'') = Some [''title'' \<mapsto> PyObj ''Draft'']"
  "m_state_data titled (PyObj ''pending'') = Some Map.empty"
  "m_state_data titled (PyObj ''published'') = Some Map.empty"
  by (simp_all add: titled_def workflow_def add_transition_def add_state_info_def init_def Let_def)

lemma invariant_titled: "invariant titled"
  unfolding titled_def by (intro invariant_add_state_info invariant_workflow)

lemma loop_shadowed_fields:
  "m_transitions loop_shadowed =
     [edge (PyObj ''go'') ''S'' ''B'' None, edge (PyObj ''go'') ''S'' ''S'' None]"
  "m_state_order loop_shadowed = [PyObj ''S'', PyObj ''B'']"
  "state_attr loop_shadowed = ''state''"
  "initial_state loop_shadowed = PyNone"
  "m_state_data loop_shadowed (PyObj ''S'') = Some Map.empty"
  "m_state_data loop_shadowed (PyObj ''B'') = Some Map.empty"
  by (simp_all add: loop_shadowed_def edge_def add_transition_def add_state_info_def init_def Let_def)

lemma state_of_in_state:
  "state_attr m = ''state'' \<Longrightarrow> state_of m (ctx (in_state s)) = Inr (PyObj s)"
  by (simp add: state_of_def getattr_def in_state_def setattr_def)

lemma state_of_unset:
  "state_of m (ctx unset) = Inr (initial_state m)"
  by (simp add: state_of_def getattr_def unset_def no_attrs_def)

lemma in_state_calls: "calls (in_state s) = []"
  by (simp add: in_state_def)

subsection \<open>Reading the state\<close>

text \<open>
  C7. \<open>state_of\<close> returns the value the state attribute holds, and \<open>initial_state\<close> when
  the attribute is absent, that is, when reading it raises \<open>AttributeError\<close>. It raises
  exactly when reading the attribute raises an exception other than \<open>AttributeError\<close>,
  and then it raises that exception. The state that \<open>execute\<close> reads in its first step
  (through the sentinel \<open>_marker\<close>) is the same, and \<open>execute\<close> propagates the same
  exception, with the table, the context and the call list as they were.
\<close>

theorem state_of_reads:
  "(cx (state_attr m) = Stored v \<longrightarrow> state_of m cx = Inr v)
   \<and> (cx (state_attr m) = Missing \<or> cx (state_attr m) = Failing AttributeError
        \<longrightarrow> state_of m cx = Inr (initial_state m))
   \<and> (state_of m cx = Inl e \<longleftrightarrow> cx (state_attr m) = Failing e \<and> e \<noteq> AttributeError)
   \<and> execute_state m cx = state_of m cx
   \<and> (state_of m (ctx w) = Inl e \<longrightarrow> execute cbs m w n guards = (Some e, m, w))"
  by (auto simp: execute_def execute_state_eq state_of_def getattr_def split: attribute.splits)

theorem state_of_reads_witness:
  "state_of workflow (ctx (in_state ''pending'')) = Inr (PyObj ''pending'')
   \<and> state_of workflow (ctx unset) = Inr (PyObj ''draft'')
   \<and> state_of workflow unreadable = Inl (Other ''boom'')
   \<and> execute example_cbs workflow \<lparr>ctx = unreadable, calls = []\<rparr> (PyObj ''submit'') [pass_guard] =
       (Some (Other ''boom''), workflow, \<lparr>ctx = unreadable, calls = []\<rparr>)"
  using state_of_reads[of "ctx (in_state ''pending'')" workflow "PyObj ''pending''"]
    state_of_reads[of "ctx unset" workflow]
    state_of_reads[of unreadable workflow _ "Other ''boom''" "\<lparr>ctx = unreadable, calls = []\<rparr>"
      example_cbs "PyObj ''submit''" "[pass_guard]"]
  by (simp add: workflow_fields in_state_def unset_def no_attrs_def unreadable_def setattr_def)

text \<open>
  C7 with "never raises" fails: \<open>getattr\<close> with a default suppresses \<open>AttributeError\<close>
  only. On a context whose state attribute raises another exception when read,
  \<open>state_of\<close> raises it.
\<close>

theorem state_of_raises_counterexample:
  "unreadable (state_attr workflow) = Failing (Other ''boom'')
   \<and> state_of workflow unreadable = Inl (Other ''boom'')"
  by (simp add: state_of_def getattr_def workflow_fields unreadable_def)

subsection \<open>Executing a named transition\<close>




text \<open>
  C2. If no registered dictionary has \<open>(from_state, name)\<close> equal to the pair of the
  current state and the transition name, \<open>execute\<close> raises \<open>StateMachineError\<close> and leaves
  the table and the context as they were, having called no guard and no callback. The
  witness is a table whose only dictionary from the current state is named \<open>None\<close>: it
  is not used as a fallback.
\<close>

theorem execute_unregistered:
  assumes "state_of m (ctx w) = Inr A"
    and "\<forall>t\<in>set (m_transitions m). (from_state t, name t) \<noteq> (A, n)"
  shows "execute cbs m w n guards =
           (Some (StateMachineError (No_transition_using A n)), m, w)"
  using assms by (simp add: execute_def execute_state_eq find_transition_None)

theorem execute_unregistered_witness:
  "m_transitions wildcard = [edge PyNone ''A'' ''B'' None]
   \<and> state_of wildcard (ctx (in_state ''A'')) = Inr (PyObj ''A'')
   \<and> execute example_cbs wildcard (in_state ''A'') (PyObj ''go'') [pass_guard] =
       (Some (StateMachineError (No_transition_using (PyObj ''A'') (PyObj ''go''))),
        wildcard, in_state ''A'')"
  using execute_unregistered[of wildcard "in_state ''A''" "PyObj ''A''" "PyObj ''go''"
      example_cbs "[pass_guard]"]
  by (simp add: wildcard_fields state_of_in_state edge_def)

text \<open>
  C3, with the state attribute kept only where guards and callback do not assign it.
  Let \<open>T\<close> be the first dictionary matching the current state and the name, and let the
  first \<open>k\<close> guards, called in the order supplied, each with the context and the
  dictionary as the guards before left them (\<open>ps ! i\<close> for guard \<open>i\<close>), return normally.
  If guard \<open>k\<close> then raises \<open>e\<close>, \<open>execute\<close> raises the same \<open>e\<close>; the calls made are exactly
  the guards \<open>0..k\<close> in order and the callback is not among them. If all guards have
  returned and the callback raises \<open>e\<close>, \<open>execute\<close> raises the same \<open>e\<close> after calling the
  guards in order and then the callback. In both cases the context and the dictionary
  are as the raiser left them: the engine writes nothing. If, besides, none of the calls
  made changed the state attribute, it is after the call what it was before.
\<close>

theorem execute_error_propagates:
  assumes "m_transitions m = pre @ T # post"
    and "\<forall>t\<in>set pre. (from_state t, name t) \<noteq> (from_state T, name T)"
    and "state_of m (ctx w) = Inr (from_state T)"
    and "length ps = Suc k" and "k \<le> length guards" and "ps ! 0 = (ctx w, T)"
    and "\<forall>i<k. (guards ! i) (fst (ps ! i)) (snd (ps ! i)) = (None, ps ! Suc i)"
  shows "(k < length guards \<and> (guards ! k) (fst (ps ! k)) (snd (ps ! k)) = (Some e, c, r)
          \<longrightarrow> execute cbs m w (name T) guards =
                (Some e, m\<lparr>m_transitions := pre @ r # post\<rparr>,
                 \<lparr>ctx = c,
                   calls = calls w @ map (\<lambda>i. Guard_call i (snd (ps ! i))) [0..<Suc k]\<rparr>))
       \<and> (k = length guards \<and> callback (snd (ps ! k)) = Some cb
            \<and> cbs cb (fst (ps ! k)) (snd (ps ! k)) = (Some e, c, r)
          \<longrightarrow> execute cbs m w (name T) guards =
                (Some e, m\<lparr>m_transitions := pre @ r # post\<rparr>,
                 \<lparr>ctx = c,
                   calls = calls w @ map (\<lambda>i. Guard_call i (snd (ps ! i))) [0..<k]
                             @ [Callback_call cb (snd (ps ! k))]\<rparr>))
       \<and> (((k < length guards \<and> (guards ! k) (fst (ps ! k)) (snd (ps ! k)) = (Some e, c, r))
             \<or> (k = length guards \<and> callback (snd (ps ! k)) = Some cb
                 \<and> cbs cb (fst (ps ! k)) (snd (ps ! k)) = (Some e, c, r)))
            \<and> (\<forall>i<k. fst (ps ! Suc i) (state_attr m) = fst (ps ! i) (state_attr m))
            \<and> c (state_attr m) = fst (ps ! k) (state_attr m)
          \<longrightarrow> ctx (snd (snd (execute cbs m w (name T) guards))) (state_attr m)
                = ctx w (state_attr m))"
proof -
  have guard_case: "execute cbs m w (name T) guards =
                (Some e, m\<lparr>m_transitions := pre @ r # post\<rparr>,
                 \<lparr>ctx = c,
                   calls = calls w @ map (\<lambda>i. Guard_call i (snd (ps ! i))) [0..<Suc k]\<rparr>)"
    if "k < length guards" and "(guards ! k) (fst (ps ! k)) (snd (ps ! k)) = (Some e, c, r)"
  proof -
    from run_guards_raised[OF assms(4) that(1) assms(6,7) that(2)]
      execute_found[OF assms(1-3), of cbs guards]
    show ?thesis
      by simp
  qed
  have callback_case: "execute cbs m w (name T) guards =
                (Some e, m\<lparr>m_transitions := pre @ r # post\<rparr>,
                 \<lparr>ctx = c,
                   calls = calls w @ map (\<lambda>i. Guard_call i (snd (ps ! i))) [0..<k]
                             @ [Callback_call cb (snd (ps ! k))]\<rparr>)"
    if "k = length guards" and "callback (snd (ps ! k)) = Some cb"
      and "cbs cb (fst (ps ! k)) (snd (ps ! k)) = (Some e, c, r)"
  proof -
    from assms(4,6,7) that(1) have
      "run_guards guards 0 T w =
         (None, snd (ps ! k),
          \<lparr>ctx = fst (ps ! k),
            calls = calls w @ map (\<lambda>j. Guard_call j (snd (ps ! j))) [0..<k]\<rparr>)"
      using run_guards_all_passed[of ps guards w T] by simp
    with execute_found[OF assms(1-3), of cbs guards] that(2,3) show ?thesis
      by simp
  qed
  have kept: "ctx (snd (snd (execute cbs m w (name T) guards))) (state_attr m)
                = ctx w (state_attr m)"
    if raised: "(k < length guards \<and> (guards ! k) (fst (ps ! k)) (snd (ps ! k)) = (Some e, c, r))
             \<or> (k = length guards \<and> callback (snd (ps ! k)) = Some cb
                 \<and> cbs cb (fst (ps ! k)) (snd (ps ! k)) = (Some e, c, r))"
      and along: "\<forall>i<k. fst (ps ! Suc i) (state_attr m) = fst (ps ! i) (state_attr m)"
      and last: "c (state_attr m) = fst (ps ! k) (state_attr m)"
  proof -
    from kept_along[OF along] assms(6) last have "c (state_attr m) = ctx w (state_attr m)"
      by simp
    moreover from raised guard_case callback_case
    have "ctx (snd (snd (execute cbs m w (name T) guards))) = c"
      by auto
    ultimately show ?thesis
      by simp
  qed
  from guard_case callback_case kept show ?thesis
    by blast
qed

theorem execute_error_propagates_witness:
  "execute example_cbs workflow (in_state ''pending'') (PyObj ''approve'') [pass_guard, veto_guard] =
     (Some (Other ''veto''), workflow,
      \<lparr>ctx = ctx (in_state ''pending''),
        calls = [Guard_call 0 (edge (PyObj ''approve'') ''pending'' ''published'' (Some ''stamp'')),
                 Guard_call 1 (edge (PyObj ''approve'') ''pending'' ''published'' (Some ''stamp''))]\<rparr>)
   \<and> execute example_cbs risky (in_state ''A'') (PyObj ''go'') [pass_guard] =
     (Some (Other ''boom''), risky,
      \<lparr>ctx = setattr (ctx (in_state ''A'')) ''state'' (PyObj ''X''),
        calls = [Guard_call 0 (edge (PyObj ''go'') ''A'' ''B'' (Some ''rewrite_and_fail'')),
                 Callback_call ''rewrite_and_fail''
                   (edge (PyObj ''go'') ''A'' ''B'' (Some ''rewrite_and_fail''))]\<rparr>)
   \<and> ctx (snd (snd (execute example_cbs workflow (in_state ''pending'') (PyObj ''approve'')
                      [pass_guard, veto_guard]))) (state_attr workflow)
       = ctx (in_state ''pending'') (state_attr workflow)"
proof -
  let ?T = "edge (PyObj ''approve'') ''pending'' ''published'' (Some ''stamp'')"
  let ?c = "ctx (in_state ''pending'')"
  let ?ps = "[(?c, ?T), (?c, ?T)]"
  have table: "m_transitions workflow =
      [edge (PyObj ''submit'') ''draft'' ''pending'' None] @ ?T
        # [edge (PyObj ''reject'') ''pending'' ''draft'' None]"
    by (simp add: workflow_fields)
  have first: "\<forall>t\<in>set [edge (PyObj ''submit'') ''draft'' ''pending'' None].
      (from_state t, name t) \<noteq> (from_state ?T, name ?T)"
    by (simp add: edge_def)
  have state: "state_of workflow (ctx (in_state ''pending'')) = Inr (from_state ?T)"
    by (simp add: state_of_in_state workflow_fields edge_def)
  have len: "length ?ps = Suc 1" and le: "1 \<le> length [pass_guard, veto_guard]"
    and start: "?ps ! 0 = (?c, ?T)"
    by simp_all
  have passed: "\<forall>i<1. ([pass_guard, veto_guard] ! i) (fst (?ps ! i)) (snd (?ps ! i))
      = (None, ?ps ! Suc i)"
    by (simp add: pass_guard_def)
  note guard_raised = execute_error_propagates[where m = workflow
      and pre = "[edge (PyObj ''submit'') ''draft'' ''pending'' None]" and T = ?T
      and post = "[edge (PyObj ''reject'') ''pending'' ''draft'' None]"
      and w = "in_state ''pending''" and ps = ?ps and k = 1
      and guards = "[pass_guard, veto_guard]" and e = "Other ''veto''" and c = ?c and r = ?T
      and cbs = example_cbs]
  let ?F = "edge (PyObj ''go'') ''A'' ''B'' (Some ''rewrite_and_fail'')"
  let ?a = "ctx (in_state ''A'')"
  let ?qs = "[(?a, ?F), (?a, ?F)]"
  have table': "m_transitions risky = [] @ ?F # []"
    by (simp add: risky_fields)
  have first': "\<forall>t\<in>set []. (from_state t, name t) \<noteq> (from_state ?F, name ?F)"
    by simp
  have state': "state_of risky (ctx (in_state ''A'')) = Inr (from_state ?F)"
    by (simp add: state_of_in_state risky_fields edge_def)
  have len': "length ?qs = Suc 1" and le': "1 \<le> length [pass_guard]"
    and start': "?qs ! 0 = (?a, ?F)"
    by simp_all
  have passed': "\<forall>i<1. ([pass_guard] ! i) (fst (?qs ! i)) (snd (?qs ! i)) = (None, ?qs ! Suc i)"
    by (simp add: pass_guard_def)
  note callback_raised = execute_error_propagates[where m = risky
      and pre = "[]" and T = ?F and post = "[]" and w = "in_state ''A''" and ps = ?qs and k = 1
      and guards = "[pass_guard]" and e = "Other ''boom''"
      and c = "setattr ?a ''state'' (PyObj ''X'')" and r = ?F and cb = "''rewrite_and_fail''"
      and cbs = example_cbs]
  from table first state len le start passed table' first' state' len' le' start' passed'
    guard_raised callback_raised show ?thesis
    by (simp add: veto_guard_def example_cbs_def edge_def workflow_fields risky_fields
        same_table upt_conv_Cons in_state_calls)
qed

text \<open>
  C3 without that proviso fails: the engine does not undo what a guard or callback did
  to the context before it raised. The callback \<open>rewrite_and_fail\<close> assigns the state
  attribute and raises; after \<open>execute\<close> has propagated the exception, the attribute holds
  the value the callback wrote (\<open>X\<close>), not the value before the call (\<open>A\<close>).
\<close>

theorem execute_rollback_counterexample:
  "fst (execute example_cbs risky (in_state ''A'') (PyObj ''go'') []) = Some (Other ''boom'')
   \<and> ctx (in_state ''A'') (state_attr risky) = Stored (PyObj ''A'')
   \<and> ctx (snd (snd (execute example_cbs risky (in_state ''A'') (PyObj ''go'') [])))
        (state_attr risky) = Stored (PyObj ''X'')"
  by (simp add: execute_def execute_state_eq state_of_def getattr_def risky_fields in_state_def
      example_cbs_def edge_def setattr_def no_attrs_def)

subsection \<open>Targeted transition\<close>

text \<open>
  C5. With \<open>skip_same=True\<close>, \<open>transition_to_state\<close> to the state the context is in already
  returns normally and leaves the table, the context and the list of calls as they
  were: no guard and no callback is invoked.
\<close>

theorem transition_to_state_skip_same:
  assumes "state_of m (ctx w) = Inr S"
  shows "transition_to_state cbs m w S guards True = (None, m, w)"
  using assms by (simp add: transition_to_state_def)

theorem transition_to_state_skip_same_witness:
  "state_of workflow (ctx unset) = Inr (PyObj ''draft'')
   \<and> transition_to_state example_cbs workflow unset (PyObj ''draft'') [veto_guard] True
       = (None, workflow, unset)"
  using transition_to_state_skip_same[of workflow unset "PyObj ''draft''" example_cbs "[veto_guard]"]
  by (simp add: workflow_fields state_of_unset)

text \<open>
  What \<open>transition_to_state\<close> does when it does not return early: under the invariant,
  for a registered target state \<open>S\<close> reached by at least one dictionary from the current
  state, it calls \<open>execute\<close> with the \<^emph>\<open>name\<close> of the first such dictionary \<open>T\<close>.
\<close>

lemma transition_to_state_delegates:
  assumes "invariant m" and "state_of m (ctx w) = Inr cur"
    and "cur \<noteq> S \<or> \<not> skip_same"
    and "S \<in> set (m_state_order m)"
    and "filter (\<lambda>t. from_state t = cur \<and> to_state t = S) (m_transitions m) = T # rest"
  shows "transition_to_state cbs m w S guards skip_same = execute cbs m w (name T) guards"
proof -
  from state_info_map[OF assms(1,2), of PyNone] obtain L where
    L: "state_info m (ctx w) PyNone = Inr L"
    and names: "map d_name L = m_state_order m"
    and tr: "\<forall>D\<in>set L. d_transitions D =
        filter (\<lambda>t. from_state t = cur \<and> to_state t = d_name D) (m_transitions m)"
    by (auto simp: comp_def)
  from assms(4) names obtain D where D: "D \<in> set L" "d_name D = S"
    by (metis (no_types, lifting) image_iff list.set_map)
  with tr assms(5) have "d_transitions D = T # rest"
    by simp
  moreover from assms(1) names have "distinct (map d_name L)"
    by (simp add: invariant_def)
  ultimately have "transition_to_state_loop cbs m w S guards cur L =
      execute cbs m w (name T) guards"
    using D by (intro transition_to_state_loop_first)
  with L assms(2,3) show ?thesis
    by (auto simp: transition_to_state_def)
qed

text \<open>
  When, besides, no dictionary registered before \<open>T\<close> has the current state and the
  name of \<open>T\<close>, so that the lookup by name finds \<open>T\<close> itself, a normal return leaves the
  context in the \<open>to_state\<close> that the dictionary at the position of \<open>T\<close> then holds:
  \<open>S\<close>, unless a guard or the callback has assigned it.
\<close>

lemma transition_to_state_unshadowed:
  assumes "invariant m" and "state_of m (ctx w) = Inr cur"
    and "cur \<noteq> S \<or> \<not> skip_same"
    and "S \<in> set (m_state_order m)"
    and "filter (\<lambda>t. from_state t = cur \<and> to_state t = S) (m_transitions m) = T # rest"
    and "m_transitions m = pre @ T # post"
    and "\<forall>t\<in>set pre. (from_state t, name t) \<noteq> (from_state T, name T)"
    and "fst (transition_to_state cbs m w S guards skip_same) = None"
  shows "ctx (snd (snd (transition_to_state cbs m w S guards skip_same))) (state_attr m)
           = Stored (to_state (m_transitions
                 (fst (snd (transition_to_state cbs m w S guards skip_same))) ! length pre))"
proof -
  from assms(5) have "T \<in> set (filter (\<lambda>t. from_state t = cur \<and> to_state t = S)
      (m_transitions m))"
    by simp
  then have "from_state T = cur"
    by simp
  with assms(2) have state: "state_of m (ctx w) = Inr (from_state T)"
    by simp
  from transition_to_state_delegates[OF assms(1-5), of cbs guards]
  have "transition_to_state cbs m w S guards skip_same = execute cbs m w (name T) guards" .
  with execute_found[OF assms(6,7) state, of cbs guards] assms(8) show ?thesis
    by (auto simp: setattr_def split: prod.splits option.splits)
qed

text \<open>
  With \<open>skip_same=False\<close> and no dictionary from \<open>S\<close> to \<open>S\<close>, asking for the state the
  context is in raises \<open>StateMachineError\<close>.
\<close>

lemma transition_to_state_no_self_loop:
  assumes "invariant m" and "state_of m (ctx w) = Inr S"
    and "\<forall>t\<in>set (m_transitions m). \<not> (from_state t = S \<and> to_state t = S)"
  shows "transition_to_state cbs m w S guards False =
           (Some (StateMachineError (No_transition_to_state S S)), m, w)"
  using transition_to_state_raises[OF assms(1,2), of S False cbs guards] assms(3) by simp

text \<open>
  C4, on a concrete table. \<open>go\<close> is registered twice from \<open>A\<close>: first to \<open>B\<close> (with the
  callback \<open>stamp\<close>), then to \<open>C\<close>. \<open>transition_to_state\<close> to \<open>C\<close> from \<open>A\<close> selects the
  second dictionary and calls \<open>execute\<close> with its name \<open>go\<close>, which matches the first:
  the call returns normally, the callback of the first dictionary has run, and the
  context is in state \<open>B\<close>, not \<open>C\<close>.
\<close>

theorem transition_to_state_shadowed:
  "m_transitions shadowed =
     [edge (PyObj ''go'') ''A'' ''B'' (Some ''stamp''), edge (PyObj ''go'') ''A'' ''C'' None]
   \<and> state_of shadowed (ctx (in_state ''A'')) = Inr (PyObj ''A'')
   \<and> fst (transition_to_state example_cbs shadowed (in_state ''A'') (PyObj ''C'') [] True) = None
   \<and> state_of shadowed
        (ctx (snd (snd (transition_to_state example_cbs shadowed (in_state ''A'') (PyObj ''C'')
                          [] True))))
       = Inr (PyObj ''B'')
   \<and> calls (snd (snd (transition_to_state example_cbs shadowed (in_state ''A'') (PyObj ''C'')
                        [] True)))
       = [Callback_call ''stamp'' (edge (PyObj ''go'') ''A'' ''B'' (Some ''stamp''))]"
  by (simp add: transition_to_state_def state_info_def Let_def shadowed_fields in_state_def
      state_of_def getattr_def execute_def execute_state_eq example_cbs_def
      edge_def setattr_def no_attrs_def handed_back_def)

text \<open>
  C6. Under the invariant, when the current state differs from \<open>S\<close> and no registered
  dictionary goes from the current state to \<open>S\<close>, \<open>transition_to_state\<close> raises
  \<open>StateMachineError\<close> and leaves the table, the context and the call list as they were,
  whatever the guards and \<open>skip_same\<close>. In the witness \<open>published\<close> is two transitions
  away from \<open>draft\<close>: the method does not chain them.
\<close>

theorem transition_to_state_no_direct:
  assumes "invariant m"
    and "state_of m (ctx w) = Inr cur"
    and "cur \<noteq> S"
    and "\<forall>t\<in>set (m_transitions m). \<not> (from_state t = cur \<and> to_state t = S)"
  shows "transition_to_state cbs m w S guards skip_same =
           (Some (StateMachineError (No_transition_to_state cur S)), m, w)"
  using assms by (intro transition_to_state_raises) simp_all

theorem transition_to_state_no_direct_witness:
  "m_transitions workflow =
     [edge (PyObj ''submit'') ''draft'' ''pending'' None,
      edge (PyObj ''approve'') ''pending'' ''published'' (Some ''stamp''),
      edge (PyObj ''reject'') ''pending'' ''draft'' None]
   \<and> state_of workflow (ctx unset) = Inr (PyObj ''draft'')
   \<and> transition_to_state example_cbs workflow unset (PyObj ''published'') [] True =
       (Some (StateMachineError (No_transition_to_state (PyObj ''draft'') (PyObj ''published''))),
        workflow, unset)"
  using transition_to_state_no_direct[OF invariant_workflow, of unset "PyObj ''draft''"
      "PyObj ''published''" example_cbs "[]" True]
  by (simp add: workflow_fields state_of_unset edge_def)

text \<open>
  C10, on a concrete table. \<open>go\<close> is registered twice from \<open>S\<close>: first to \<open>B\<close>, then as
  a self-loop to \<open>S\<close>. With \<open>skip_same=False\<close>, \<open>transition_to_state\<close> to \<open>S\<close> from \<open>S\<close>
  selects the self-loop and calls \<open>execute\<close> with its name \<open>go\<close>, which matches the
  first dictionary: the call returns normally with the context in state \<open>B\<close>.
\<close>

theorem transition_to_state_self_loop_shadowed:
  "m_transitions loop_shadowed =
     [edge (PyObj ''go'') ''S'' ''B'' None, edge (PyObj ''go'') ''S'' ''S'' None]
   \<and> state_of loop_shadowed (ctx (in_state ''S'')) = Inr (PyObj ''S'')
   \<and> transition_to_state example_cbs loop_shadowed (in_state ''S'') (PyObj ''S'') [] False =
       (None, loop_shadowed, in_state ''B'')"
proof -
  have "loop_shadowed\<lparr>m_transitions :=
      [edge (PyObj ''go'') ''S'' ''B'' None, edge (PyObj ''go'') ''S'' ''S'' None]\<rparr>
      = loop_shadowed"
    by (rule same_table) (simp add: loop_shadowed_fields)
  then show ?thesis
    by (simp add: transition_to_state_def state_info_def Let_def loop_shadowed_fields in_state_def
        state_of_def getattr_def execute_def execute_state_eq edge_def setattr_def
        no_attrs_def handed_back_def)
qed

subsection \<open>Registering states\<close>

text \<open>
  C8. Under the invariant, the first registration of \<open>s\<close> appends it to the state order
  unless it is there already; registering \<open>s\<close> again, any number of times, leaves the
  order as it is; whatever is registered afterwards, of \<open>s\<close> or of other states, only
  extends the order at its end, so no position in it changes; after two registrations
  \<open>s\<close> occurs exactly once in the order; and when the two calls' metadata keys are
  disjoint, the metadata of \<open>s\<close> holds every key/value pair of both calls.
\<close>

theorem add_state_info_idempotent_merge:
  assumes "invariant m" and "dom kw1 \<inter> dom kw2 = {}"
  shows "m_state_order (add_state_info m s kw1) =
           (if s \<in> set (m_state_order m) then m_state_order m else m_state_order m @ [s])
       \<and> m_state_order (fold (\<lambda>kw m'. add_state_info m' s kw) kws (add_state_info m s kw1)) =
           m_state_order (add_state_info m s kw1)
       \<and> (\<exists>ys. m_state_order (fold (\<lambda>(s', kw) m'. add_state_info m' s' kw) regs
                                 (add_state_info m s kw1)) =
                 m_state_order (add_state_info m s kw1) @ ys)
       \<and> length (filter (\<lambda>x. x = s) (m_state_order (add_state_info (add_state_info m s kw1) s kw2))) = 1
       \<and> (\<exists>d. m_state_data (add_state_info (add_state_info m s kw1) s kw2) s = Some d
              \<and> (\<forall>k\<in>dom kw1. d k = kw1 k) \<and> (\<forall>k\<in>dom kw2. d k = kw2 k))"
proof (intro conjI)
  show "m_state_order (add_state_info m s kw1) =
           (if s \<in> set (m_state_order m) then m_state_order m else m_state_order m @ [s])"
    by (rule add_state_info_order)
  have mem: "s \<in> set (m_state_order (add_state_info m s kw1))"
    by (simp add: add_state_info_order)
  then show "m_state_order (fold (\<lambda>kw m'. add_state_info m' s kw) kws (add_state_info m s kw1)) =
           m_state_order (add_state_info m s kw1)"
    by (rule add_state_info_again)
  show "\<exists>ys. m_state_order (fold (\<lambda>(s', kw) m'. add_state_info m' s' kw) regs
                                 (add_state_info m s kw1)) =
                 m_state_order (add_state_info m s kw1) @ ys"
    by (rule add_state_info_extends)
  from assms(1) have "distinct (m_state_order (add_state_info m s kw1))"
    using invariant_add_state_info invariant_def by blast
  with mem show
    "length (filter (\<lambda>x. x = s) (m_state_order (add_state_info (add_state_info m s kw1) s kw2))) = 1"
    by (simp add: add_state_info_order[of "add_state_info m s kw1"] distinct_length_filter)
  let ?old = "case m_state_data m s of None \<Rightarrow> Map.empty | Some d \<Rightarrow> d"
  have data: "m_state_data (add_state_info (add_state_info m s kw1) s kw2) s =
      Some ((?old ++ kw1) ++ kw2)"
    by (simp add: add_state_info_data)
  have "\<forall>k\<in>dom kw1. ((?old ++ kw1) ++ kw2) k = kw1 k"
  proof
    fix k assume k: "k \<in> dom kw1"
    with assms(2) have "k \<notin> dom kw2" by auto
    with k show "((?old ++ kw1) ++ kw2) k = kw1 k"
      by (auto simp: map_add_def split: option.splits)
  qed
  moreover have "\<forall>k\<in>dom kw2. ((?old ++ kw1) ++ kw2) k = kw2 k"
    by (auto simp: map_add_def split: option.splits)
  ultimately show "\<exists>d. m_state_data (add_state_info (add_state_info m s kw1) s kw2) s = Some d
              \<and> (\<forall>k\<in>dom kw1. d k = kw1 k) \<and> (\<forall>k\<in>dom kw2. d k = kw2 k)"
    using data by blast
qed

theorem add_state_info_idempotent_merge_witness:
  "m_state_order
     (add_state_info (add_state_info workflow (PyObj ''pending'') [''title'' \<mapsto> PyObj ''Pending''])
        (PyObj ''pending'') [''color'' \<mapsto> PyObj ''red''])
     = [PyObj ''draft'', PyObj ''pending'', PyObj ''published'']
   \<and> (\<exists>d. m_state_data
          (add_state_info (add_state_info workflow (PyObj ''pending'') [''title'' \<mapsto> PyObj ''Pending''])
             (PyObj ''pending'') [''color'' \<mapsto> PyObj ''red'']) (PyObj ''pending'') = Some d
        \<and> d ''title'' = Some (PyObj ''Pending'') \<and> d ''color'' = Some (PyObj ''red''))"
  using add_state_info_idempotent_merge[OF invariant_workflow,
      where ?kw1.0 = "[''title'' \<mapsto> PyObj ''Pending'']"
        and ?kw2.0 = "[''color'' \<mapsto> PyObj ''red'']" and s = "PyObj ''pending''"
        and kws = "[[''color'' \<mapsto> PyObj ''red'']]"
        and regs = "[(PyObj ''archived'', Map.empty)]"]
  by (simp add: workflow_fields)

subsection \<open>State descriptors\<close>

text \<open>
  C9. Under the invariant, for a context whose state can be read, \<open>state_info\<close> returns
  one descriptor per name of the state order, in that order. In each, \<open>data\<close> is the
  metadata registered for the name, \<open>initial\<close> and \<open>current\<close> compare the name with
  \<open>initial_state\<close> and with the context's state, \<open>title\<close> is the metadata's \<open>title\<close> or else
  the name, and \<open>transitions\<close> is the sublist, in registration order, of the dictionaries
  from the resolved from-state (the argument, or the context's state when the argument
  is \<open>None\<close>) to that name.
\<close>

theorem state_info_descriptors:
  assumes "invariant m" and "state_of m cx = Inr cur"
  shows "\<exists>L. state_info m cx from_st = Inr L
     \<and> map d_name L = m_state_order m
     \<and> (\<forall>D\<in>set L.
           m_state_data m (d_name D) = Some (d_data D)
         \<and> d_initial D = (d_name D = initial_state m)
         \<and> d_current D = (d_name D = cur)
         \<and> d_title D = (case d_data D ''title'' of None \<Rightarrow> d_name D | Some title \<Rightarrow> title)
         \<and> d_transitions D =
             filter (\<lambda>t. from_state t = (if from_st = PyNone then cur else from_st)
                          \<and> to_state t = d_name D) (m_transitions m))"
proof -
  from assms(1) have "set (m_state_order m) \<subseteq> dom (m_state_data m)"
    by (simp add: invariant_def)
  with state_info_map[OF assms, of from_st] show ?thesis
    by (auto simp: comp_def split: option.splits)
qed

theorem state_info_descriptors_witness:
  "\<exists>L. state_info titled (ctx (in_state ''pending'')) PyNone = Inr L
     \<and> map d_name L = [PyObj ''draft'', PyObj ''pending'', PyObj ''published'']
     \<and> map d_title L = [PyObj ''Draft'', PyObj ''pending'', PyObj ''published'']
     \<and> map d_initial L = [True, False, False]
     \<and> map d_current L = [False, True, False]
     \<and> map d_transitions L =
         [[edge (PyObj ''reject'') ''pending'' ''draft'' None], [],
          [edge (PyObj ''approve'') ''pending'' ''published'' (Some ''stamp'')]]"
proof -
  have cur: "state_of titled (ctx (in_state ''pending'')) = Inr (PyObj ''pending'')"
    by (simp add: state_of_in_state titled_fields)
  from state_info_descriptors[OF invariant_titled cur, of PyNone]
  obtain L where L: "state_info titled (ctx (in_state ''pending'')) PyNone = Inr L"
    and names: "map d_name L = m_state_order titled"
    and fields: "\<forall>D\<in>set L.
           m_state_data titled (d_name D) = Some (d_data D)
         \<and> d_initial D = (d_name D = initial_state titled)
         \<and> d_current D = (d_name D = PyObj ''pending'')
         \<and> d_title D = (case d_data D ''title'' of None \<Rightarrow> d_name D | Some title \<Rightarrow> title)
         \<and> d_transitions D =
             filter (\<lambda>t. from_state t = PyObj ''pending'' \<and> to_state t = d_name D)
               (m_transitions titled)"
    by auto
  from names obtain D1 D2 D3 where shape: "L = [D1, D2, D3]"
    and n: "d_name D1 = PyObj ''draft''" "d_name D2 = PyObj ''pending''"
      "d_name D3 = PyObj ''published''"
    by (auto simp: titled_fields map_eq_Cons_conv)
  from fields shape have each: "\<And>D. D \<in> {D1, D2, D3} \<Longrightarrow>
           m_state_data titled (d_name D) = Some (d_data D)
         \<and> d_initial D = (d_name D = initial_state titled)
         \<and> d_current D = (d_name D = PyObj ''pending'')
         \<and> d_title D = (case d_data D ''title'' of None \<Rightarrow> d_name D | Some title \<Rightarrow> title)
         \<and> d_transitions D =
             filter (\<lambda>t. from_state t = PyObj ''pending'' \<and> to_state t = d_name D)
               (m_transitions titled)"
    by auto
  from each[of D1] n have data1: "d_data D1 = [''title'' \<mapsto> PyObj ''Draft'']"
    by (simp add: titled_fields)
  from each[of D2] n have data2: "d_data D2 = Map.empty"
    by (simp add: titled_fields)
  from each[of D3] n have data3: "d_data D3 = Map.empty"
    by (simp add: titled_fields)
  from each[of D1] each[of D2] each[of D3] n data1 data2 data3 shape have
    "map d_title L = [PyObj ''Draft'', PyObj ''pending'', PyObj ''published'']"
    "map d_initial L = [True, False, False]"
    "map d_current L = [False, True, False]"
    "map d_transitions L =
         [[edge (PyObj ''reject'') ''pending'' ''draft'' None], [],
          [edge (PyObj ''approve'') ''pending'' ''published'' (Some ''stamp'')]]"
    by (simp_all add: titled_fields workflow_fields edge_def)
  with L names show ?thesis
    by (simp add: titled_fields)
qed

end
